theory Spec2Isabelle
  imports Main "HOL-Library.Word"
begin

unbundle bit_operations_syntax

section \<open>Python strings\<close>

text \<open>
  A Python \<open>str\<close> is modelled as a \<^typ>\<open>string\<close>: a list of characters with code
  points below 256. Within that range \<open>str.isspace\<close> holds of the characters
  \<open>0x09..0x0D\<close>, \<open>0x1C..0x20\<close>, \<open>0x85\<close> and \<open>0xA0\<close>, the pattern \<open>\d\<close> matches
  the ten ASCII digits only, and \<open>str.lower\<close> moves \<open>A..Z\<close> and the accented capitals
  \<open>0xC0..0xDE\<close> (without \<open>0xD7\<close>) up by 32.
\<close>

definition py_whitespace :: "char list" where
  "py_whitespace =
     [CHR 0x09, CHR 0x0A, CHR 0x0B, CHR 0x0C, CHR 0x0D, CHR 0x1C, CHR 0x1D, CHR 0x1E,
      CHR 0x1F, CHR 0x20, CHR 0x85, CHR 0xA0]"

definition isspace :: "char \<Rightarrow> bool" where
  "isspace c = (c \<in> set py_whitespace)"

definition isdigit :: "char \<Rightarrow> bool" where
  "isdigit c = (c \<in> set ''0123456789'')"

definition lstrip :: "string \<Rightarrow> string" where
  "lstrip s = dropWhile isspace s"

definition rstrip :: "string \<Rightarrow> string" where
  "rstrip s = rev (dropWhile isspace (rev s))"

definition strip :: "string \<Rightarrow> string" where
  "strip s = rstrip (lstrip s)"

definition digit_char :: "nat \<Rightarrow> char" where
  "digit_char d = ''0123456789abcdef'' ! d"

text \<open>\<open>str(n)\<close> of a non-negative integer: its decimal digits, most significant first.\<close>

function str_nat :: "nat \<Rightarrow> string" where
  "str_nat n = (if n < 10 then [digit_char n] else str_nat (n div 10) @ [digit_char (n mod 10)])"
  by pat_completeness auto
termination
  by (relation "measure id") auto

declare str_nat.simps [simp del]

definition str_int :: "int \<Rightarrow> string" where
  "str_int i = (if i < 0 then ''-'' @ str_nat (nat (- i)) else str_nat (nat i))"

text \<open>\<open>sep.join(parts)\<close>.\<close>

fun join :: "string \<Rightarrow> string list \<Rightarrow> string" where
  "join sep [] = []"
| "join sep [p] = p"
| "join sep (p # q # ps) = p @ sep @ join sep (q # ps)"

section \<open>JSON values as Python objects\<close>

text \<open>
  What \<open>request.json()\<close> hands to the endpoints. JSON numbers are the integers; an
  object is a \<open>dict\<close>, kept as an association list in insertion order whose keys are
  distinct (the parser keeps one entry per key).
\<close>

datatype json =
    JNull
  | JBool bool
  | JInt int
  | JStr string
  | JArr "json list"
  | JObj "(string \<times> json) list"

type_synonym row = "(string \<times> json) list"

text \<open>Truth value of an object, as \<open>or\<close>, \<open>and\<close> and \<open>if\<close> test it.\<close>

fun truthy :: "json \<Rightarrow> bool" where
  "truthy JNull = False"
| "truthy (JBool b) = b"
| "truthy (JInt i) = (i \<noteq> 0)"
| "truthy (JStr s) = (s \<noteq> [])"
| "truthy (JArr xs) = (xs \<noteq> [])"
| "truthy (JObj kvs) = (kvs \<noteq> [])"

text \<open>\<open>a or b\<close>.\<close>

definition por :: "json \<Rightarrow> json \<Rightarrow> json" where
  "por a b = (if truthy a then a else b)"

text \<open>\<open>d.get(k)\<close>: the value, or \<open>None\<close> when the key is absent.\<close>

definition dict_get :: "row \<Rightarrow> string \<Rightarrow> json" where
  "dict_get d k = (case map_of d k of None \<Rightarrow> JNull | Some v \<Rightarrow> v)"

text \<open>\<open>d[k] = v\<close>: overwrite in place when the key exists, append otherwise.\<close>

fun dict_set :: "('k \<times> 'v) list \<Rightarrow> 'k \<Rightarrow> 'v \<Rightarrow> ('k \<times> 'v) list" where
  "dict_set [] k v = [(k, v)]"
| "dict_set ((k', v') # d) k v = (if k' = k then (k', v) # d else (k', v') # dict_set d k v)"

definition hex2 :: "nat \<Rightarrow> string" where
  "hex2 n = [digit_char (n div 16 mod 16), digit_char (n mod 16)]"

text \<open>
  \<open>repr\<close> of a string: double quotes when the text holds a single quote and no double
  quote, single quotes otherwise; the quote and the backslash escaped, tab, line feed
  and carriage return by letter, every other unprintable character as \<open>\xNN\<close>.
\<close>

definition unprintable :: "char \<Rightarrow> bool" where
  "unprintable c =
     (let n = (of_char c :: nat) in n < 0x20 \<or> n = 0x7F \<or> (0x80 \<le> n \<and> n \<le> 0xA0) \<or> n = 0xAD)"

definition repr_char :: "char \<Rightarrow> char \<Rightarrow> string" where
  "repr_char quote c =
     (if c = quote \<or> c = CHR 0x5C then [CHR 0x5C, c]
      else if c = CHR 0x09 then [CHR 0x5C, CHR ''t'']
      else if c = CHR 0x0A then [CHR 0x5C, CHR ''n'']
      else if c = CHR 0x0D then [CHR 0x5C, CHR ''r'']
      else if unprintable c then [CHR 0x5C, CHR ''x''] @ hex2 (of_char c)
      else [c])"

definition repr_str :: "string \<Rightarrow> string" where
  "repr_str s =
     (let quote = (if CHR 0x27 \<in> set s \<and> CHR 0x22 \<notin> set s then CHR 0x22 else CHR 0x27)
      in [quote] @ concat (map (repr_char quote) s) @ [quote])"

fun py_repr :: "json \<Rightarrow> string" where
  "py_repr JNull = ''None''"
| "py_repr (JBool b) = (if b then ''True'' else ''False'')"
| "py_repr (JInt i) = str_int i"
| "py_repr (JStr s) = repr_str s"
| "py_repr (JArr xs) = ''['' @ join '', '' (map py_repr xs) @ '']''"
| "py_repr (JObj kvs) =
     ''{'' @ join '', '' (map (\<lambda>kv. repr_str (fst kv) @ '': '' @ py_repr (snd kv)) kvs) @ ''}''"

text \<open>\<open>str(v)\<close>: a string is itself, anything else prints as its \<open>repr\<close>.\<close>

definition py_str :: "json \<Rightarrow> string" where
  "py_str v = (case v of JStr s \<Rightarrow> s | _ \<Rightarrow> py_repr v)"

section \<open>api_server: helpers\<close>

definition API_KEY :: string where
  "API_KEY = ''my_secret_key''"

datatype error =
    Unauthorized
  | BadRequest string
  | Forbidden string
  | NotFound string "string list"
  | AttributeError

text \<open>
  The status the client sees. \<open>AttributeError\<close> is the uncaught exception of calling
  \<open>.get\<close> or \<open>.strip\<close> on an object that has none; the framework answers 500.
\<close>

fun status_code :: "error \<Rightarrow> nat" where
  "status_code Unauthorized = 401"
| "status_code (BadRequest d) = 400"
| "status_code (Forbidden d) = 403"
| "status_code (NotFound rid known) = 404"
| "status_code AttributeError = 500"

definition auth_or_401 :: "string option \<Rightarrow> error option" where
  "auth_or_401 authorization =
     (if authorization \<noteq> Some (''Bearer '' @ API_KEY) then Some Unauthorized else None)"

definition row_id :: "row \<Rightarrow> string" where
  "row_id row =
     (let rid = por (por (por (por (dict_get row ''__id'') (dict_get row ''ExternalID''))
                              (dict_get row ''ID'')) (dict_get row ''id'')) (JStr [])
      in strip (py_str rid))"

definition normalize_id :: "string \<Rightarrow> string" where
  "normalize_id rid = strip rid"

text \<open>
  \<open>re.match(r"^(.*)-(\d+)$", rid.strip())\<close>: the text must end in a hyphen and at least
  one digit; the greedy group takes everything before that hyphen and, as \<open>.\<close> does not
  match a line feed, must be free of line feeds. The group is returned stripped.
\<close>

definition strip_suffix_num :: "string \<Rightarrow> string option" where
  "strip_suffix_num rid =
     (let s = strip rid;
          digits = takeWhile isdigit (rev s);
          rest = dropWhile isdigit (rev s)
      in case rest of
           [] \<Rightarrow> None
         | c # base \<Rightarrow>
             if digits \<noteq> [] \<and> c = CHR ''-'' \<and> CHR 0x0A \<notin> set base
             then Some (strip (rev base)) else None)"

text \<open>The rows of \<open>DATA_STORAGE\<close>, in order.\<close>

type_synonym store = "row list"

definition row_label :: "nat \<Rightarrow> row \<Rightarrow> string" where
  "row_label i r = (if row_id r \<noteq> [] then row_id r else ''row-'' @ str_nat i)"

fun attach_loop :: "nat \<Rightarrow> json list \<Rightarrow> row list \<Rightarrow> error + row list" where
  "attach_loop i [] out = Inr out"
| "attach_loop i (r # rows) out =
     (case r of
        JObj d \<Rightarrow> attach_loop (Suc i) rows (out @ [dict_set d ''__id'' (JStr (row_label i d))])
      | _ \<Rightarrow> Inl (BadRequest ''Each item must be an object''))"

definition attach_ids :: "json list \<Rightarrow> error + row list" where
  "attach_ids rows = attach_loop 0 rows []"

text \<open>
  The two search loops of the resolver. Python returns the row object itself; its
  position in the store stands for that reference.
\<close>

fun first_index :: "('a \<Rightarrow> bool) \<Rightarrow> 'a list \<Rightarrow> nat option" where
  "first_index P [] = None"
| "first_index P (x # xs) = (if P x then Some 0 else map_option Suc (first_index P xs))"

definition find_row_ref :: "store \<Rightarrow> string \<Rightarrow> nat option" where
  "find_row_ref DATA_STORAGE rid0 =
     (let rid = normalize_id rid0 in
      case first_index (\<lambda>row. row_id row = rid) DATA_STORAGE of
        Some i \<Rightarrow> Some i
      | None \<Rightarrow>
          (case strip_suffix_num rid of
             None \<Rightarrow> None
           | Some base \<Rightarrow>
               if base \<noteq> [] then first_index (\<lambda>row. row_id row = base) DATA_STORAGE
               else None))"


section \<open>api_server: endpoints\<close>

text \<open>
  Each endpoint takes the store and returns its answer together with the store it
  leaves behind. An exception is the \<open>Inl\<close> answer, with the store as it stood when
  the exception was raised.
\<close>

definition receive_releases :: "string option \<Rightarrow> json \<Rightarrow> store \<Rightarrow> (error + nat) \<times> store" where
  "receive_releases authorization payload DATA_STORAGE =
     (case auth_or_401 authorization of
        Some e \<Rightarrow> (Inl e, DATA_STORAGE)
      | None \<Rightarrow>
          (case payload of
             JArr items \<Rightarrow>
               (case attach_ids items of
                  Inl e \<Rightarrow> (Inl e, [])
                | Inr out \<Rightarrow> (Inr (length out), out))
           | _ \<Rightarrow> (Inl (BadRequest ''Expected a list of releases''), DATA_STORAGE)))"

definition list_ids :: "store \<Rightarrow> string list" where
  "list_ids DATA_STORAGE = map row_id DATA_STORAGE"


text \<open>
  \<open>EDITABLE_COLUMNS\<close> is a module constant, \<open>None\<close> in the source; it is a parameter
  here so that the allow-list branch is covered too. The answer of a successful patch
  is the triple of identifier, field and value.
\<close>

definition patch_cell ::
  "string set option \<Rightarrow> string \<Rightarrow> string option \<Rightarrow> json \<Rightarrow> store
     \<Rightarrow> (error + string \<times> string \<times> json) \<times> store" where
  "patch_cell EDITABLE_COLUMNS rid authorization body DATA_STORAGE =
     (case auth_or_401 authorization of
        Some e \<Rightarrow> (Inl e, DATA_STORAGE)
      | None \<Rightarrow>
          (case body of
             JObj b \<Rightarrow>
               (case por (dict_get b ''field'') (JStr []) of
                  JStr f \<Rightarrow>
                    (let field = strip f; val = dict_get b ''value'' in
                     if field = [] then (Inl (BadRequest (''Missing '' @ [CHR 0x27] @ ''field'' @ [CHR 0x27])), DATA_STORAGE)
                     else if (case EDITABLE_COLUMNS of None \<Rightarrow> False
                              | Some cols \<Rightarrow> cols \<noteq> {} \<and> field \<notin> cols)
                     then (Inl (Forbidden field), DATA_STORAGE)
                     else
                       (case find_row_ref DATA_STORAGE rid of
                          None \<Rightarrow> (Inl (NotFound rid (take 5 (list_ids DATA_STORAGE))), DATA_STORAGE)
                        | Some i \<Rightarrow>
                            (let row = dict_set (DATA_STORAGE ! i) field val
                             in (Inr (row_id row, field, val), DATA_STORAGE[i := row]))))
                | _ \<Rightarrow> (Inl AttributeError, DATA_STORAGE))
           | _ \<Rightarrow> (Inl AttributeError, DATA_STORAGE)))"

fun rebuild_loop :: "nat \<Rightarrow> row list \<Rightarrow> row list" where
  "rebuild_loop i [] = []"
| "rebuild_loop i (row # rows) =
     dict_set row ''__id'' (JStr (row_label i row)) # rebuild_loop (Suc i) rows"

definition rebuild_ids :: "string option \<Rightarrow> store \<Rightarrow> (error + nat) \<times> store" where
  "rebuild_ids authorization DATA_STORAGE =
     (case auth_or_401 authorization of
        Some e \<Rightarrow> (Inl e, DATA_STORAGE)
      | None \<Rightarrow> (Inr (length DATA_STORAGE), rebuild_loop 0 DATA_STORAGE))"

section \<open>hashlib.sha1\<close>

text \<open>
  The digest behind the composite identifier: SHA-1 over the UTF-8 bytes of the text,
  on 32-bit words, printed as 40 lower-case hexadecimal digits. A character below
  \<open>0x80\<close> is one byte, any other character of the model two.
\<close>

definition utf8_encode :: "string \<Rightarrow> 8 word list" where
  "utf8_encode s =
     concat (map (\<lambda>c. let n = (of_char c :: nat) in
                        if n < 0x80 then [of_nat n]
                        else [of_nat (0xC0 + n div 0x40), of_nat (0x80 + n mod 0x40)]) s)"

definition rotl :: "nat \<Rightarrow> 32 word \<Rightarrow> 32 word" where
  "rotl n x = push_bit n x OR drop_bit (32 - n) x"

definition be64 :: "64 word \<Rightarrow> 8 word list" where
  "be64 n = map (\<lambda>i. ucast (drop_bit (8 * (7 - i)) n)) [0..<8]"

definition sha1_pad :: "8 word list \<Rightarrow> 8 word list" where
  "sha1_pad msg =
     msg @ [0x80] @ replicate ((119 - length msg mod 64) mod 64) 0 @ be64 (of_nat (8 * length msg))"

fun be32 :: "8 word list \<Rightarrow> 32 word list" where
  "be32 (a # b # c # d # bs) =
     (push_bit 24 (ucast a) OR push_bit 16 (ucast b) OR push_bit 8 (ucast c) OR ucast d) # be32 bs"
| "be32 bs = []"

fun schedule :: "nat \<Rightarrow> 32 word list \<Rightarrow> 32 word list" where
  "schedule 0 w = w"
| "schedule (Suc n) w =
     (let t = length w
      in schedule n (w @ [rotl 1 (w ! (t - 3) XOR w ! (t - 8) XOR w ! (t - 14) XOR w ! (t - 16))]))"

definition sha1_f :: "nat \<Rightarrow> 32 word \<Rightarrow> 32 word \<Rightarrow> 32 word \<Rightarrow> 32 word" where
  "sha1_f t b c d =
     (if t < 20 then (b AND c) OR (NOT b AND d)
      else if t < 40 then b XOR c XOR d
      else if t < 60 then (b AND c) OR (b AND d) OR (c AND d)
      else b XOR c XOR d)"

definition sha1_k :: "nat \<Rightarrow> 32 word" where
  "sha1_k t =
     (if t < 20 then 0x5A827999 else if t < 40 then 0x6ED9EBA1
      else if t < 60 then 0x8F1BBCDC else 0xCA62C1D6)"

type_synonym sha1_state = "32 word \<times> 32 word \<times> 32 word \<times> 32 word \<times> 32 word"

fun sha1_round :: "sha1_state \<Rightarrow> nat \<times> 32 word \<Rightarrow> sha1_state" where
  "sha1_round (a, b, c, d, e) (t, w) =
     (rotl 5 a + sha1_f t b c d + e + sha1_k t + w, a, rotl 30 b, c, d)"

fun sha1_block :: "sha1_state \<Rightarrow> 8 word list \<Rightarrow> sha1_state" where
  "sha1_block (h0, h1, h2, h3, h4) block =
     (case foldl sha1_round (h0, h1, h2, h3, h4) (zip [0..<80] (schedule 64 (be32 block))) of
        (a, b, c, d, e) \<Rightarrow> (h0 + a, h1 + b, h2 + c, h3 + d, h4 + e))"

fun sha1_blocks :: "nat \<Rightarrow> sha1_state \<Rightarrow> 8 word list \<Rightarrow> sha1_state" where
  "sha1_blocks 0 h bs = h"
| "sha1_blocks (Suc n) h bs = sha1_blocks n (sha1_block h (take 64 bs)) (drop 64 bs)"

definition sha1 :: "8 word list \<Rightarrow> sha1_state" where
  "sha1 msg =
     (let padded = sha1_pad msg
      in sha1_blocks (length padded div 64)
           (0x67452301, 0xEFCDAB89, 0x98BADCFE, 0x10325476, 0xC3D2E1F0) padded)"

definition hex32 :: "32 word \<Rightarrow> string" where
  "hex32 w = map (\<lambda>i. digit_char (unat (drop_bit (28 - 4 * i) w AND 0xF))) [0..<8]"

definition hexdigest :: "sha1_state \<Rightarrow> string" where
  "hexdigest h = (case h of (h0, h1, h2, h3, h4) \<Rightarrow> concat (map hex32 [h0, h1, h2, h3, h4]))"

section \<open>sync_excel_jira: from the spreadsheet to the payload\<close>

text \<open>
  A \<open>DataFrame\<close> is its columns in order, each a name with the cells of the rows. A
  cell is a string, an integer or a missing value; column names are strings and differ
  from one another, as \<open>read_excel\<close> makes them. Dates and floating-point cells are
  left out of the model.
\<close>

datatype cell = NaN | Str string | Num int

type_synonym dataframe = "(string \<times> cell list) list"

datatype pd_error = KeyError | ValueError | TypeError

text \<open>\<open>str.lower\<close>, and \<open>str(v)\<close> of a cell (\<open>astype(str)\<close> on a column).\<close>

definition lower_char :: "char \<Rightarrow> char" where
  "lower_char c =
     (let n = (of_char c :: nat)
      in if (0x41 \<le> n \<and> n \<le> 0x5A) \<or> (0xC0 \<le> n \<and> n \<le> 0xDE \<and> n \<noteq> 0xD7)
         then char_of (n + 0x20) else c)"

definition lower :: "string \<Rightarrow> string" where
  "lower s = map lower_char s"

definition cell_str :: "cell \<Rightarrow> string" where
  "cell_str v = (case v of NaN \<Rightarrow> ''nan'' | Str s \<Rightarrow> s | Num i \<Rightarrow> str_int i)"

definition columns :: "dataframe \<Rightarrow> string list" where
  "columns df = map fst df"

definition nrows :: "dataframe \<Rightarrow> nat" where
  "nrows df = (case df of [] \<Rightarrow> 0 | (c, vals) # cs \<Rightarrow> length vals)"

text \<open>
  \<open>{str(c).strip().lower(): c for c in cols}\<close>: a later column overwrites an earlier
  one with the same key. \<open>name_given\<close> is the truth value of a looked-up name.
\<close>

definition lower_to_orig :: "string list \<Rightarrow> string \<Rightarrow> string option" where
  "lower_to_orig cols = fold (\<lambda>c m. m(lower (strip c) \<mapsto> c)) cols Map.empty"

definition name_given :: "string option \<Rightarrow> bool" where
  "name_given c = (c \<noteq> None \<and> c \<noteq> Some [])"

text \<open>
  Step (A): \<open>Category\<close> against \<open>Scope\<close>. \<open>Series.where(cond, other)\<close> keeps a cell
  where the condition holds and takes the other column's cell elsewhere;
  \<open>DataFrame.insert\<close> refuses a name the table already has.
\<close>

definition series_where :: "cell list \<Rightarrow> cell list \<Rightarrow> cell list" where
  "series_where category scope =
     map (\<lambda>(c, s). if c \<noteq> NaN \<and> cell_str c \<noteq> [] then c else s) (zip category scope)"

definition df_insert :: "nat \<Rightarrow> string \<Rightarrow> cell list \<Rightarrow> dataframe \<Rightarrow> pd_error + dataframe" where
  "df_insert loc c vals df =
     (if c \<in> set (columns df) then Inl ValueError
      else Inr (take loc df @ [(c, vals)] @ drop loc df))"

definition prepare_category :: "dataframe \<Rightarrow> pd_error + dataframe" where
  "prepare_category df =
     (let cols = columns df;
          scope_col = lower_to_orig cols ''scope'';
          category_col = lower_to_orig cols ''category''
      in if name_given category_col \<and> name_given scope_col then
           (case (map_of df (the category_col), map_of df (the scope_col)) of
              (Some category, Some scope) \<Rightarrow>
                Inr (dict_set df (the category_col) (series_where category scope))
            | _ \<Rightarrow> Inl KeyError)
         else if name_given scope_col \<and> \<not> name_given category_col then
           (case (first_index (\<lambda>c. c = the scope_col) cols, map_of df (the scope_col)) of
              (Some i, Some scope) \<Rightarrow> df_insert (i + 1) ''Category'' scope df
            | (None, _) \<Rightarrow> Inl ValueError
            | _ \<Rightarrow> Inl KeyError)
         else Inr df)"

text \<open>
  Step (B): the identifier column. A row handed to \<open>make_id\<close> by
  \<open>df.apply(..., axis=1)\<close> is the list of its cells by column name.
\<close>

definition candidate_column :: "(string \<Rightarrow> string option) \<Rightarrow> string option" where
  "candidate_column l2o =
     (case find (\<lambda>name. l2o name \<noteq> None) [''__id'', ''externalid'', ''id'', ''jira key'', ''key''] of
        None \<Rightarrow> None
      | Some name \<Rightarrow> l2o name)"

type_synonym series = "(string \<times> cell) list"

definition df_rows :: "dataframe \<Rightarrow> series list" where
  "df_rows df = map (\<lambda>i. map (\<lambda>(c, vals). (c, vals ! i)) df) [0..<nrows df]"

definition row_part :: "series \<Rightarrow> string option \<Rightarrow> string" where
  "row_part row col =
     (if name_given col
      then cell_str (case map_of row (the col) of None \<Rightarrow> Str [] | Some v \<Rightarrow> v)
      else [])"

definition make_id :: "string option \<Rightarrow> string option \<Rightarrow> string option \<Rightarrow> series \<Rightarrow> string" where
  "make_id app_col ver_col scope_or_cat row =
     (let parts = [row_part row app_col, row_part row ver_col, row_part row scope_or_cat];
          base = join ''|'' (map strip parts);
          h = take 10 (hexdigest (sha1 (utf8_encode base)))
      in (if parts ! 0 \<noteq> [] then parts ! 0 else ''x'') @ ''-'' @
         (if parts ! 1 \<noteq> [] then parts ! 1 else ''na'') @ ''-'' @ h)"

definition assign_ids :: "dataframe \<Rightarrow> pd_error + dataframe" where
  "assign_ids df =
     (let l2o = lower_to_orig (columns df);
          candidate = candidate_column l2o
      in if name_given candidate \<and> candidate \<noteq> Some ''__id'' then
           (case map_of df (the candidate) of
              None \<Rightarrow> Inl KeyError
            | Some vals \<Rightarrow> Inr (dict_set df ''__id'' (map (\<lambda>v. Str (cell_str v)) vals)))
         else if ''__id'' \<notin> set (columns df) then
           (let app_col = l2o ''application'';
                ver_col = l2o ''version'';
                scope_or_cat = (if name_given (l2o ''category'') then l2o ''category'' else l2o ''scope'')
            in Inr (dict_set df ''__id''
                      (map (\<lambda>row. Str (make_id app_col ver_col scope_or_cat row)) (df_rows df))))
         else Inr df)"

text \<open>
  The uniqueness step. \<open>duplicated(keep=False)\<close> marks every member of a group of
  equal identifiers, \<open>groupby("__id").cumcount()\<close> numbers the members of a group
  from 0 in row order. Appending text to an integer cell raises \<open>TypeError\<close>; a
  missing cell stays missing.
\<close>

definition cumcount :: "cell list \<Rightarrow> nat \<Rightarrow> nat" where
  "cumcount ids i = count_list (take i ids) (ids ! i)"

definition duplicated :: "cell list \<Rightarrow> nat \<Rightarrow> bool" where
  "duplicated ids i = (1 < count_list ids (ids ! i))"

definition suffix_duplicates :: "cell list \<Rightarrow> cell list" where
  "suffix_duplicates ids =
     map (\<lambda>i. if duplicated ids i
               then (case ids ! i of Str s \<Rightarrow> Str (s @ ''-'' @ str_nat (cumcount ids i)) | v \<Rightarrow> v)
               else ids ! i) [0..<length ids]"

definition enforce_unique :: "dataframe \<Rightarrow> pd_error + dataframe" where
  "enforce_unique df =
     (case map_of df ''__id'' of
        None \<Rightarrow> Inl KeyError
      | Some ids \<Rightarrow>
          if distinct ids then Inr df
          else if \<exists>i\<in>set [0..<length ids]. duplicated ids i \<and> (case ids ! i of Num n \<Rightarrow> True | _ \<Rightarrow> False)
          then Inl TypeError
          else Inr (dict_set df ''__id'' (suffix_duplicates ids)))"

text \<open>
  The payload: \<open>df.fillna("").to_dict(orient="records")\<close>, one object per row. The
  result of \<open>send_excel_to_api\<close> is the body it posts to the ingest endpoint.
\<close>

definition json_of_cell :: "cell \<Rightarrow> json" where
  "json_of_cell v = (case v of NaN \<Rightarrow> JStr [] | Str s \<Rightarrow> JStr s | Num i \<Rightarrow> JInt i)"

definition to_records :: "dataframe \<Rightarrow> json list" where
  "to_records df = map (\<lambda>row. JObj (map (\<lambda>(c, v). (c, json_of_cell v)) row)) (df_rows df)"

definition send_excel_to_api :: "dataframe \<Rightarrow> pd_error + json list" where
  "send_excel_to_api df0 =
     (case prepare_category df0 of
        Inl e \<Rightarrow> Inl e
      | Inr df1 \<Rightarrow>
          (case assign_ids df1 of
             Inl e \<Rightarrow> Inl e
           | Inr df2 \<Rightarrow>
               (case enforce_unique df2 of
                  Inl e \<Rightarrow> Inl e
                | Inr df3 \<Rightarrow> Inr (to_records df3))))"

section \<open>The serving process\<close>

text \<open>
  The three mutating requests, and the store after a sequence of them, starting from
  the empty store of a fresh process.
\<close>

datatype request =
    Ingest "string option" json
  | Patch string "string option" json
  | RebuildIds "string option"

fun serve :: "string set option \<Rightarrow> store \<Rightarrow> request \<Rightarrow> store" where
  "serve E S (Ingest authorization payload) = snd (receive_releases authorization payload S)"
| "serve E S (Patch rid authorization body) = snd (patch_cell E rid authorization body S)"
| "serve E S (RebuildIds authorization) = snd (rebuild_ids authorization S)"

definition serve_all :: "string set option \<Rightarrow> request list \<Rightarrow> store" where
  "serve_all E reqs = foldl (serve E) [] reqs"

text \<open>
  Predicates on requests and rows used to state the store invariant: a patch that
  names the field \<open>__id\<close>; the identifiers an ingest would store; a row whose
  \<open>__id\<close> is a non-empty, trimmed string.
\<close>

fun patches_id_field :: "request \<Rightarrow> bool" where
  "patches_id_field (Patch rid authorization (JObj b)) =
     (case por (dict_get b ''field'') (JStr []) of JStr f \<Rightarrow> strip f = ''__id'' | _ \<Rightarrow> False)"
| "patches_id_field q = False"

fun ingest_ids :: "request \<Rightarrow> json list" where
  "ingest_ids (Ingest authorization (JArr items)) =
     (case attach_ids items of Inl e \<Rightarrow> [] | Inr out \<Rightarrow> map (\<lambda>row. dict_get row ''__id'') out)"
| "ingest_ids q = []"

definition has_id :: "row \<Rightarrow> bool" where
  "has_id row = (case dict_get row ''__id'' of JStr s \<Rightarrow> s \<noteq> [] \<and> strip s = s | _ \<Rightarrow> False)"

section \<open>The resolver as the specification words it\<close>




section \<open>Properties: auxiliary facts\<close>

lemma rstrip_lstrip_commute: "lstrip (rstrip s) = rstrip (lstrip s)"
proof (cases "\<forall>c\<in>set s. isspace c")
  case True
  then have e: "dropWhile isspace s = []" "dropWhile isspace (rev s) = []" by simp_all
  show ?thesis unfolding lstrip_def rstrip_def e by simp
next
  case False
  then have ne: "dropWhile isspace s \<noteq> []" by simp
  then obtain c b where d: "dropWhile isspace s = c # b"
    by (cases "dropWhile isspace s") simp_all
  define a where "a = takeWhile isspace s"
  have s: "s = a @ c # b"
    unfolding a_def d [symmetric] by simp
  have a: "\<forall>x\<in>set a. isspace x"
    unfolding a_def by (auto dest: set_takeWhileD)
  have c: "\<not> isspace c"
    using hd_dropWhile [OF ne] d by simp
  define X where "X = rev (dropWhile isspace (rev b))"
  have 1: "dropWhile isspace s = c # b"
    unfolding s using a c by (simp add: dropWhile_append3)
  have 2: "dropWhile isspace (rev s) = rev X @ c # rev a"
    unfolding s X_def using c by (simp add: dropWhile_append)
  have 3: "dropWhile isspace (rev (c # b)) = rev X @ [c]"
    unfolding X_def using c by (simp add: dropWhile_append)
  have 4: "dropWhile isspace (a @ c # X) = c # X"
    using a c by (simp add: dropWhile_append3)
  have "lstrip (rstrip s) = c # X"
    unfolding rstrip_def 2 lstrip_def using 4 by simp
  moreover have "rstrip (lstrip s) = c # X"
    unfolding lstrip_def 1 rstrip_def 3 by simp
  ultimately show ?thesis by simp
qed

lemma strip_idem: "strip (strip s) = strip s"
proof -
  have "strip (strip s) = rstrip (rstrip (lstrip (lstrip s)))"
    by (simp only: strip_def rstrip_lstrip_commute)
  also have "\<dots> = rstrip (lstrip s)"
    by (simp add: lstrip_def rstrip_def)
  finally show ?thesis by (simp only: strip_def)
qed

lemma dict_get_dict_set: "dict_get (dict_set d k v) k' = (if k' = k then v else dict_get d k')"
  by (induction d) (auto simp: dict_get_def)

lemma attach_loop_objects:
  "attach_loop i (map JObj rows) out =
     Inr (out @ map (\<lambda>(j, d). dict_set d ''__id'' (JStr (row_label j d)))
                  (zip [i..<i + length rows] rows))"
proof (induction rows arbitrary: i out)
  case Nil
  then show ?case by simp
next
  case (Cons d rows)
  have e: "[i..<i + length (d # rows)] = i # [Suc i..<Suc i + length rows]"
    by (simp add: upt_conv_Cons del: upt_Suc)
  have "attach_loop i (map JObj (d # rows)) out =
          attach_loop (Suc i) (map JObj rows) (out @ [dict_set d ''__id'' (JStr (row_label i d))])"
    by simp
  also have "\<dots> = Inr ((out @ [dict_set d ''__id'' (JStr (row_label i d))]) @
      map (\<lambda>(j, d). dict_set d ''__id'' (JStr (row_label j d)))
        (zip [Suc i..<Suc i + length rows] rows))"
    by (rule Cons.IH)
  finally show ?case unfolding e by simp
qed

lemma attach_ids_objects:
  "attach_ids (map JObj rows) =
     Inr (map (\<lambda>(j, d). dict_set d ''__id'' (JStr (row_label j d))) (zip [0..<length rows] rows))"
  by (simp add: attach_ids_def attach_loop_objects)

lemma first_index_less: "first_index P xs = Some i \<Longrightarrow> i < length xs"
  by (induction xs arbitrary: i) (auto split: if_splits)

lemma first_index_holds: "first_index P xs = Some i \<Longrightarrow> P (xs ! i)"
  by (induction xs arbitrary: i) (auto split: if_splits)

lemma find_row_ref_less: "find_row_ref S rid = Some i \<Longrightarrow> i < length S"
  by (auto simp: find_row_ref_def Let_def dest: first_index_less split: option.splits if_splits)

lemma patch_cell_store:
  "snd (patch_cell E rid a body S) = S \<or>
   (\<exists>i b f. i < length S \<and> body = JObj b \<and> por (dict_get b ''field'') (JStr []) = JStr f \<and>
      strip f \<noteq> [] \<and> find_row_ref S rid = Some i \<and>
      snd (patch_cell E rid a body S) = S[i := dict_set (S ! i) (strip f) (dict_get b ''value'')])"
  by (auto simp: patch_cell_def Let_def dest: find_row_ref_less split: option.splits json.splits)








lemma digit_char_isdigit:
  assumes "d < 10"
  shows "isdigit (digit_char d)"
proof -
  from assms have "d < Suc (Suc (Suc (Suc (Suc (Suc (Suc (Suc (Suc (Suc 0)))))))))"
    by simp
  then have "d = 0 \<or> d = Suc 0 \<or> d = Suc (Suc 0) \<or> d = Suc (Suc (Suc 0)) \<or>
      d = Suc (Suc (Suc (Suc 0))) \<or> d = Suc (Suc (Suc (Suc (Suc 0)))) \<or>
      d = Suc (Suc (Suc (Suc (Suc (Suc 0))))) \<or> d = Suc (Suc (Suc (Suc (Suc (Suc (Suc 0)))))) \<or>
      d = Suc (Suc (Suc (Suc (Suc (Suc (Suc (Suc 0))))))) \<or>
      d = Suc (Suc (Suc (Suc (Suc (Suc (Suc (Suc (Suc 0))))))))"
    by (simp only: less_Suc_eq) auto
  then show ?thesis
    by (elim disjE) (simp_all add: digit_char_def isdigit_def)
qed

lemma str_nat_digits: "str_nat n \<noteq> [] \<and> (\<forall>c\<in>set (str_nat n). isdigit c)"
proof (induction n rule: str_nat.induct)
  case (1 n)
  show ?case
  proof (cases "n < 10")
    case True
    then show ?thesis by (simp add: str_nat.simps [of n] digit_char_isdigit)
  next
    case False
    then have "str_nat n = str_nat (n div 10) @ [digit_char (n mod 10)]"
      by (simp add: str_nat.simps [of n])
    moreover have "isdigit (digit_char (n mod 10))" by (simp add: digit_char_isdigit)
    ultimately show ?thesis using 1 False by simp
  qed
qed

lemma isdigit_not_isspace: "isdigit c \<Longrightarrow> \<not> isspace c"
  by (auto simp: isdigit_def isspace_def py_whitespace_def)

lemma strip_unchanged:
  assumes "s \<noteq> []" and "\<not> isspace (hd s)" and "\<not> isspace (last s)"
  shows "strip s = s"
proof -
  have 1: "dropWhile isspace s = s"
    using assms(2) by (simp add: dropWhile_eq_self_iff)
  have "hd (rev s) = last s" using assms(1) by (simp add: hd_rev)
  then have 2: "dropWhile isspace (rev s) = rev s"
    using assms(3) by (simp add: dropWhile_eq_self_iff)
  show ?thesis unfolding strip_def lstrip_def rstrip_def 1 2 by simp
qed

lemma strip_row_fallback: "strip (''row-'' @ str_nat i) = ''row-'' @ str_nat i"
proof (rule strip_unchanged)
  show "''row-'' @ str_nat i \<noteq> []" by simp
  show "\<not> isspace (hd (''row-'' @ str_nat i))" by (simp add: isspace_def py_whitespace_def)
  have "last (''row-'' @ str_nat i) = last (str_nat i)" using str_nat_digits [of i] by simp
  moreover have "isdigit (last (str_nat i))" using str_nat_digits [of i] by simp
  ultimately show "\<not> isspace (last (''row-'' @ str_nat i))" by (simp add: isdigit_not_isspace)
qed

lemma row_label_clean: "row_label i d \<noteq> [] \<and> strip (row_label i d) = row_label i d"
proof (cases "row_id d = []")
  case True
  then have "row_label i d = ''row-'' @ str_nat i" by (simp add: row_label_def)
  then show ?thesis using strip_row_fallback [of i] by simp
next
  case False
  have "strip (row_id d) = row_id d" by (simp add: row_id_def Let_def strip_idem)
  with False show ?thesis by (simp add: row_label_def)
qed

lemma has_id_labelled: "has_id (dict_set d ''__id'' (JStr (row_label i d)))"
  using row_label_clean [of i d] by (simp add: has_id_def dict_get_dict_set)

lemma has_id_cases:
  assumes "has_id row"
  obtains s where "dict_get row ''__id'' = JStr s" and "s \<noteq> []" and "strip s = s"
  using assms by (cases "dict_get row ''__id''") (simp_all add: has_id_def)

lemma row_label_of_has_id:
  assumes "has_id row"
  shows "dict_get row ''__id'' = JStr (row_label i row)"
proof -
  from assms obtain s where s: "dict_get row ''__id'' = JStr s" "s \<noteq> []" "strip s = s"
    by (rule has_id_cases)
  then have "row_id row = s"
    by (simp add: row_id_def por_def py_str_def)
  with s show ?thesis by (simp add: row_label_def)
qed


lemma row_id_of_has_id:
  assumes "has_id row"
  shows "\<exists>s. dict_get row ''__id'' = JStr s \<and> s \<noteq> [] \<and> row_id row = s"
proof -
  from assms obtain s where s: "dict_get row ''__id'' = JStr s" "s \<noteq> []" "strip s = s"
    by (rule has_id_cases)
  then have "row_id row = s"
    by (simp add: row_id_def por_def py_str_def)
  with s show ?thesis by simp
qed

lemma has_id_cong:
  assumes "map (\<lambda>row. dict_get row ''__id'') S' = map (\<lambda>row. dict_get row ''__id'') S"
  shows "list_all has_id S' = list_all has_id S"
proof -
  let ?P = "\<lambda>v. case v of JStr s \<Rightarrow> s \<noteq> [] \<and> strip s = s | _ \<Rightarrow> False"
  have "list_all has_id T = list_all ?P (map (\<lambda>row. dict_get row ''__id'') T)" for T
    by (induction T) (simp_all add: has_id_def)
  then show ?thesis using assms by simp
qed

lemma attach_loop_has_id:
  "attach_loop i items out = Inr res \<Longrightarrow> list_all has_id out \<Longrightarrow> list_all has_id res"
proof (induction items arbitrary: i out)
  case Nil
  then show ?case by simp
next
  case (Cons r items)
  then show ?case
    by (cases r) (simp_all add: has_id_labelled)
qed

lemma rebuild_loop_has_id: "list_all has_id (rebuild_loop i S)"
  by (induction S arbitrary: i) (simp_all add: has_id_labelled)

lemma rebuild_loop_ids:
  "list_all has_id S \<Longrightarrow>
     map (\<lambda>row. dict_get row ''__id'') (rebuild_loop i S) = map (\<lambda>row. dict_get row ''__id'') S"
  by (induction S arbitrary: i) (simp_all add: dict_get_dict_set row_label_of_has_id [symmetric])

lemma patch_cell_ids:
  assumes "por (dict_get b ''field'') (JStr []) = JStr f" and "strip f \<noteq> ''__id''"
  shows "map (\<lambda>r. dict_get r ''__id'') (snd (patch_cell E rid a (JObj b) S))
           = map (\<lambda>r. dict_get r ''__id'') S"
proof -
  from patch_cell_store [of E rid a "JObj b" S]
  consider "snd (patch_cell E rid a (JObj b) S) = S"
    | i where "i < length S"
        "snd (patch_cell E rid a (JObj b) S) = S[i := dict_set (S ! i) (strip f) (dict_get b ''value'')]"
    using assms(1) by auto
  then show ?thesis
  proof cases
    case 1
    then show ?thesis by simp
  next
    case 2
    have "dict_get (dict_set (S ! i) (strip f) (dict_get b ''value'')) ''__id'' = dict_get (S ! i) ''__id''"
      using assms(2) by (simp add: dict_get_dict_set)
    then show ?thesis
      using 2 by (simp add: map_update list_update_same_conv)
  qed
qed

lemma serve_patch_ids:
  assumes "\<not> patches_id_field (Patch rid a body)"
  shows "map (\<lambda>r. dict_get r ''__id'') (serve E S (Patch rid a body)) = map (\<lambda>r. dict_get r ''__id'') S"
proof (cases body)
  case (JObj b)
  show ?thesis
  proof (cases "por (dict_get b ''field'') (JStr [])")
    case (JStr f)
    with assms JObj have "strip f \<noteq> ''__id''" by simp
    with JStr JObj show ?thesis by (simp add: patch_cell_ids)
  qed (simp_all add: JObj patch_cell_def split: option.splits)
qed (simp_all add: patch_cell_def split: option.splits)

lemma serve_step:
  assumes "\<not> patches_id_field q" and "list_all has_id S"
  shows "list_all has_id (serve E S q)"
    and "distinct (ingest_ids q) \<Longrightarrow> distinct (map (\<lambda>r. dict_get r ''__id'') S) \<Longrightarrow>
           distinct (map (\<lambda>r. dict_get r ''__id'') (serve E S q))"
proof -
  have "list_all has_id (serve E S q) \<and>
        (distinct (ingest_ids q) \<longrightarrow> distinct (map (\<lambda>r. dict_get r ''__id'') S) \<longrightarrow>
           distinct (map (\<lambda>r. dict_get r ''__id'') (serve E S q)))"
  proof (cases q)
    case (Ingest a payload)
    show ?thesis
    proof (cases "auth_or_401 a")
      case (Some e)
      with Ingest assms(2) show ?thesis by (simp add: receive_releases_def)
    next
      case None
      show ?thesis
      proof (cases payload)
        case (JArr items)
        show ?thesis
        proof (cases "attach_ids items")
          case (Inl e)
          with Ingest None JArr show ?thesis by (simp add: receive_releases_def)
        next
          case (Inr out)
          then have "list_all has_id out"
            using attach_loop_has_id [of 0 items "[]" out] by (simp add: attach_ids_def)
          with Ingest None JArr Inr show ?thesis by (simp add: receive_releases_def)
        qed
      qed (use Ingest None assms(2) in \<open>simp_all add: receive_releases_def\<close>)
    qed
  next
    case (Patch rid a body)
    with assms(1) have e: "map (\<lambda>r. dict_get r ''__id'') (serve E S q) = map (\<lambda>r. dict_get r ''__id'') S"
      using serve_patch_ids by simp
    with assms(2) show ?thesis using has_id_cong [OF e] by simp
  next
    case (RebuildIds a)
    show ?thesis
    proof (cases "auth_or_401 a")
      case (Some e)
      with RebuildIds assms(2) show ?thesis by (simp add: rebuild_ids_def)
    next
      case None
      with RebuildIds assms(2) show ?thesis
        by (simp add: rebuild_ids_def rebuild_loop_has_id rebuild_loop_ids)
    qed
  qed
  then show "list_all has_id (serve E S q)"
    and "distinct (ingest_ids q) \<Longrightarrow> distinct (map (\<lambda>r. dict_get r ''__id'') S) \<Longrightarrow>
           distinct (map (\<lambda>r. dict_get r ''__id'') (serve E S q))"
    by blast+
qed

lemma serve_all_invariant:
  "(\<forall>q\<in>set reqs. \<not> patches_id_field q) \<Longrightarrow>
     list_all has_id (serve_all E reqs) \<and>
     ((\<forall>q\<in>set reqs. distinct (ingest_ids q)) \<longrightarrow>
        distinct (map (\<lambda>r. dict_get r ''__id'') (serve_all E reqs)))"
proof (induction reqs rule: rev_induct)
  case Nil
  then show ?case by (simp add: serve_all_def)
next
  case (snoc q reqs)
  then have ih: "list_all has_id (serve_all E reqs)"
    and ihd: "(\<forall>q\<in>set reqs. distinct (ingest_ids q)) \<longrightarrow>
        distinct (map (\<lambda>r. dict_get r ''__id'') (serve_all E reqs))"
    and q: "\<not> patches_id_field q"
    by simp_all
  have e: "serve_all E (reqs @ [q]) = serve E (serve_all E reqs) q"
    by (simp add: serve_all_def)
  show ?case
    unfolding e using serve_step [OF q ih, of E] ihd by auto
qed










lemma fold_upd_lookup:
  "fold (\<lambda>c m. m(g c \<mapsto> c)) cols m k =
     (case filter (\<lambda>c. g c = k) cols of [] \<Rightarrow> m k | c # cs \<Rightarrow> Some (last (c # cs)))"
proof (induction cols arbitrary: m)
  case Nil
  then show ?case by simp
next
  case (Cons c cols)
  let ?F = "\<lambda>c m. m(g c \<mapsto> c)"
  have "fold ?F (c # cols) m k = fold ?F cols (m(g c \<mapsto> c)) k"
    by (simp only: fold_simps)
  also have "\<dots> = (case filter (\<lambda>c. g c = k) cols of
                     [] \<Rightarrow> (m(g c \<mapsto> c)) k | c # cs \<Rightarrow> Some (last (c # cs)))"
    by (rule Cons.IH)
  also have "\<dots> = (case filter (\<lambda>c. g c = k) (c # cols) of
                     [] \<Rightarrow> m k | c # cs \<Rightarrow> Some (last (c # cs)))"
    by (cases "filter (\<lambda>c. g c = k) cols") auto
  finally show ?case .
qed

lemma lower_to_orig_filter:
  "lower_to_orig cols k =
     (case filter (\<lambda>c. lower (strip c) = k) cols of [] \<Rightarrow> None | c # cs \<Rightarrow> Some (last (c # cs)))"
  by (simp add: lower_to_orig_def fold_upd_lookup)

lemma lower_to_orig_None:
  "lower_to_orig cols k = None \<longleftrightarrow> (\<forall>n\<in>set cols. lower (strip n) \<noteq> k)"
proof (cases "filter (\<lambda>c. lower (strip c) = k) cols")
  case Nil
  then show ?thesis by (simp add: lower_to_orig_filter filter_empty_conv)
next
  case (Cons c cs)
  then have "c \<in> set (filter (\<lambda>c. lower (strip c) = k) cols)" by simp
  then have "c \<in> set cols \<and> lower (strip c) = k" by simp
  with Cons show ?thesis by (auto simp: lower_to_orig_filter)
qed

lemma lower_to_orig_Some:
  assumes "lower_to_orig cols k = Some n"
  shows "n \<in> set cols \<and> lower (strip n) = k"
proof -
  from assms obtain c cs where f: "filter (\<lambda>c. lower (strip c) = k) cols = c # cs"
    and n: "n = last (c # cs)"
    by (auto simp: lower_to_orig_filter split: list.splits)
  have "last (c # cs) \<in> set (c # cs)" by (rule last_in_set) simp
  then have "n \<in> set (filter (\<lambda>c. lower (strip c) = k) cols)" using f n by simp
  then show ?thesis by simp
qed

lemma lower_strip_Nil: "lower (strip []) = []"
  by (simp add: lower_def strip_def lstrip_def rstrip_def)

lemma lower_to_orig_given:
  assumes "lower_to_orig cols k = Some n" and "k \<noteq> []"
  shows "name_given (lower_to_orig cols k)"
proof -
  from lower_to_orig_Some [OF assms(1)] assms(2) have "n \<noteq> []"
    using lower_strip_Nil by auto
  with assms(1) show ?thesis by (simp add: name_given_def)
qed

lemma str_int_not_Nil: "str_int i \<noteq> []"
  using str_nat_digits by (simp add: str_int_def)

lemma cell_str_Nil: "cell_str c = [] \<longleftrightarrow> c = Str []"
  by (cases c) (simp_all add: cell_str_def str_int_not_Nil)

lemma series_where_rows:
  "series_where category scope =
     map (\<lambda>(cv, sv). if cv = NaN \<or> cv = Str [] then sv else cv) (zip category scope)"
  by (auto simp: series_where_def cell_str_Nil)


lemma dict_set_present:
  "distinct (map fst d) \<Longrightarrow> k \<in> set (map fst d) \<Longrightarrow>
     dict_set d k v = map (\<lambda>(n, vals). if n = k then (n, v) else (n, vals)) d"
proof (induction d)
  case Nil
  then show ?case by simp
next
  case (Cons p d)
  obtain n vals where p: "p = (n, vals)" by (cases p)
  show ?case
  proof (cases "n = k")
    case True
    with Cons.prems p have "k \<notin> set (map fst d)" by simp
    then have "map (\<lambda>(n, vals). if n = k then (n, v) else (n, vals)) d = d"
      by (induction d) auto
    with True p show ?thesis by simp
  next
    case False
    with Cons p show ?thesis by simp
  qed
qed

lemma map_of_column:
  "c \<in> set (columns df) \<Longrightarrow> \<exists>vals. map_of df c = Some vals"
  by (cases "map_of df c") (auto simp: columns_def map_of_eq_None_iff)

lemma first_index_exists:
  "x \<in> set xs \<Longrightarrow> \<exists>i. first_index (\<lambda>c. c = x) xs = Some i"
  by (induction xs) auto

lemma category_key: "lower (strip ''Category'') = ''category''"
  by code_simp













section \<open>Properties of the row store\<close>

text \<open>
  C7. Ingest is idempotent. For every list of row objects, the authorised full-replace
  ingest answers with the row count, a second ingest of the same payload on the store
  the first one left gives the same answer and the same store, and the stored
  \<open>__id\<close> values are, row for row, the probed identifier or \<open>row-<index>\<close>.
\<close>

theorem ingest_idempotent:
  "fst (receive_releases (Some (''Bearer '' @ API_KEY)) (JArr (map JObj rows)) S) = Inr (length rows) \<and>
   receive_releases (Some (''Bearer '' @ API_KEY)) (JArr (map JObj rows))
       (snd (receive_releases (Some (''Bearer '' @ API_KEY)) (JArr (map JObj rows)) S))
     = receive_releases (Some (''Bearer '' @ API_KEY)) (JArr (map JObj rows)) S \<and>
   map (\<lambda>r. dict_get r ''__id'')
       (snd (receive_releases (Some (''Bearer '' @ API_KEY)) (JArr (map JObj rows)) S))
     = map (\<lambda>(j, d). JStr (row_label j d)) (zip [0..<length rows] rows)"
  by (simp add: receive_releases_def auth_or_401_def attach_ids_objects dict_get_dict_set
      split_def comp_def)

text \<open>
  C4. Ingest validation atomicity. The claim asks that a rejected ingest leave the store
  as it was. A payload that is an array holding a non-object is rejected with status
  400 only after \<open>DATA_STORAGE.clear()\<close> has run: the store that held one row is
  empty afterwards.
\<close>

theorem ingest_rejected_item_clears_store:
  "receive_releases (Some ''Bearer my_secret_key'') (JArr [JObj [(''__id'', JStr ''b'')], JInt 1])
       [[(''__id'', JStr ''a'')]]
     = (Inl (BadRequest ''Each item must be an object''), [])"
  by (simp add: receive_releases_def auth_or_401_def API_KEY_def attach_ids_def)

text \<open>
  C5 (as amended). A patch whose trimmed field name is not \<open>__id\<close> leaves the
  \<open>__id\<close> of every stored row as it was, whatever the identifier, the value, the
  allow-list and the outcome of the request.
\<close>

theorem patch_keeps_other_ids:
  assumes "por (dict_get b ''field'') (JStr []) = JStr f" and "strip f \<noteq> ''__id''"
  shows "map (\<lambda>r. dict_get r ''__id'') (snd (patch_cell E rid a (JObj b) S))
           = map (\<lambda>r. dict_get r ''__id'') S"
  using assms by (rule patch_cell_ids)

theorem patch_keeps_other_ids_witness:
  "por (dict_get [(''field'', JStr '' Status''), (''value'', JStr ''done'')] ''field'') (JStr []) = JStr '' Status'' \<and>
   strip '' Status'' \<noteq> ''__id'' \<and>
   patch_cell None ''a-3'' (Some ''Bearer my_secret_key'')
       (JObj [(''field'', JStr '' Status''), (''value'', JStr ''done'')])
       [[(''__id'', JStr ''a''), (''Status'', JStr ''open'')]]
     = (Inr (''a'', ''Status'', JStr ''done''), [[(''__id'', JStr ''a''), (''Status'', JStr ''done'')]]) \<and>
   map (\<lambda>r. dict_get r ''__id'')
     (snd (patch_cell None ''a-3'' (Some ''Bearer my_secret_key'')
        (JObj [(''field'', JStr '' Status''), (''value'', JStr ''done'')])
        [[(''__id'', JStr ''a''), (''Status'', JStr ''open'')]]))
     = map (\<lambda>r. dict_get r ''__id'') [[(''__id'', JStr ''a''), (''Status'', JStr ''open'')]]"
proof -
  have h1: "por (dict_get [(''field'', JStr '' Status''), (''value'', JStr ''done'')] ''field'') (JStr []) = JStr '' Status''"
    by (simp add: por_def dict_get_def)
  have h2: "strip '' Status'' \<noteq> ''__id''"
    by code_simp
  have e: "patch_cell None ''a-3'' (Some ''Bearer my_secret_key'')
       (JObj [(''field'', JStr '' Status''), (''value'', JStr ''done'')])
       [[(''__id'', JStr ''a''), (''Status'', JStr ''open'')]]
     = (Inr (''a'', ''Status'', JStr ''done''), [[(''__id'', JStr ''a''), (''Status'', JStr ''done'')]])"
    by code_simp
  show ?thesis
    using h1 h2 e patch_keeps_other_ids [OF h1 h2, of None "''a-3''" "Some ''Bearer my_secret_key''"
        "[[(''__id'', JStr ''a''), (''Status'', JStr ''open'')]]"]
    by simp
qed

text \<open>
  C5 as stated fails: with no allow-list configured the field name \<open>__id\<close> passes the
  validation, and the patch overwrites the identifier of the resolved row.
\<close>

theorem patch_id_field_counterexample:
  "patch_cell None ''a'' (Some ''Bearer my_secret_key'')
       (JObj [(''field'', JStr ''__id''), (''value'', JStr ''b'')])
       [[(''__id'', JStr ''a'')], [(''__id'', JStr ''b'')]]
     = (Inr (''b'', ''__id'', JStr ''b''), [[(''__id'', JStr ''b'')], [(''__id'', JStr ''b'')]])"
  by code_simp

text \<open>
  C10. Patch-request error precedence. A wrong or missing bearer token is answered 401
  whatever the body; with the right token a blank field name is answered 400 and a
  field outside a configured, non-empty allow-list 403, in both cases whatever the
  identifier and the store; and an answer of 400, 401 or 403 is the same for every
  other identifier and store, so whether the identifier resolves plays no part in it.
\<close>

theorem patch_cell_error_precedence:
  "(bad \<noteq> Some (''Bearer '' @ API_KEY) \<longrightarrow>
      patch_cell E rid bad body S = (Inl Unauthorized, S)) \<and>
   (por (dict_get b1 ''field'') (JStr []) = JStr f1 \<and> strip f1 = [] \<longrightarrow>
      patch_cell E rid (Some (''Bearer '' @ API_KEY)) (JObj b1) S
        = (Inl (BadRequest (''Missing '' @ [CHR 0x27] @ ''field'' @ [CHR 0x27])), S)) \<and>
   (por (dict_get b2 ''field'') (JStr []) = JStr f2 \<and> strip f2 \<noteq> [] \<and>
    cols \<noteq> {} \<and> strip f2 \<notin> cols \<longrightarrow>
      patch_cell (Some cols) rid (Some (''Bearer '' @ API_KEY)) (JObj b2) S
        = (Inl (Forbidden (strip f2)), S)) \<and>
   ((\<exists>e. fst (patch_cell E rid a body S) = Inl e \<and> status_code e \<in> {400, 401, 403}) \<longrightarrow>
      fst (patch_cell E rid' a body S') = fst (patch_cell E rid a body S))"
proof (intro conjI impI)
  assume "bad \<noteq> Some (''Bearer '' @ API_KEY)"
  then show "patch_cell E rid bad body S = (Inl Unauthorized, S)"
    by (simp add: patch_cell_def auth_or_401_def)
next
  assume "por (dict_get b1 ''field'') (JStr []) = JStr f1 \<and> strip f1 = []"
  then show "patch_cell E rid (Some (''Bearer '' @ API_KEY)) (JObj b1) S
        = (Inl (BadRequest (''Missing '' @ [CHR 0x27] @ ''field'' @ [CHR 0x27])), S)"
    by (simp add: patch_cell_def auth_or_401_def)
next
  assume "por (dict_get b2 ''field'') (JStr []) = JStr f2 \<and> strip f2 \<noteq> [] \<and>
    cols \<noteq> {} \<and> strip f2 \<notin> cols"
  then show "patch_cell (Some cols) rid (Some (''Bearer '' @ API_KEY)) (JObj b2) S
        = (Inl (Forbidden (strip f2)), S)"
    by (simp add: patch_cell_def auth_or_401_def)
next
  assume "\<exists>e. fst (patch_cell E rid a body S) = Inl e \<and> status_code e \<in> {400, 401, 403}"
  then show "fst (patch_cell E rid' a body S') = fst (patch_cell E rid a body S)"
    by (auto simp: patch_cell_def auth_or_401_def Let_def split: option.splits json.splits if_splits)
qed

theorem patch_cell_error_precedence_witness:
  "None \<noteq> Some (''Bearer '' @ API_KEY) \<and>
   patch_cell (Some {''Status''}) ''nowhere'' None (JObj [(''field'', JStr ''  '')]) []
     = (Inl Unauthorized, []) \<and>
   por (dict_get [(''field'', JStr ''  '')] ''field'') (JStr []) = JStr ''  '' \<and> strip ''  '' = [] \<and>
   patch_cell (Some {''Status''}) ''nowhere'' (Some (''Bearer '' @ API_KEY)) (JObj [(''field'', JStr ''  '')]) []
     = (Inl (BadRequest (''Missing '' @ [CHR 0x27] @ ''field'' @ [CHR 0x27])), []) \<and>
   por (dict_get [(''field'', JStr ''Prod'')] ''field'') (JStr []) = JStr ''Prod'' \<and>
   strip ''Prod'' \<noteq> [] \<and> {''Status''} \<noteq> ({} :: string set) \<and> strip ''Prod'' \<notin> {''Status''} \<and>
   patch_cell (Some {''Status''}) ''nowhere'' (Some (''Bearer '' @ API_KEY)) (JObj [(''field'', JStr ''Prod'')]) []
     = (Inl (Forbidden ''Prod''), []) \<and>
   status_code (BadRequest (''Missing '' @ [CHR 0x27] @ ''field'' @ [CHR 0x27])) \<in> {400, 401, 403} \<and>
   fst (patch_cell (Some {''Status''}) ''a'' (Some (''Bearer '' @ API_KEY)) (JObj [(''field'', JStr ''  '')])
          [[(''__id'', JStr ''a'')]])
     = fst (patch_cell (Some {''Status''}) ''nowhere'' (Some (''Bearer '' @ API_KEY)) (JObj [(''field'', JStr ''  '')]) [])"
proof -
  have s1: "strip ''  '' = []" by code_simp
  have s2: "strip ''Prod'' = ''Prod''" by code_simp
  have p1: "por (dict_get [(''field'', JStr ''  '')] ''field'') (JStr []) = JStr ''  ''"
    by (simp add: por_def dict_get_def)
  have p2: "por (dict_get [(''field'', JStr ''Prod'')] ''field'') (JStr []) = JStr ''Prod''"
    by (simp add: por_def dict_get_def)
  note t = patch_cell_error_precedence [where bad = None and E = "Some {''Status''}"
      and rid = "''nowhere''" and body = "JObj [(''field'', JStr ''  '')]" and S = "[]"
      and ?b1.0 = "[(''field'', JStr ''  '')]" and ?f1.0 = "''  ''"
      and ?b2.0 = "[(''field'', JStr ''Prod'')]" and ?f2.0 = "''Prod''" and cols = "{''Status''}"
      and a = "Some (''Bearer '' @ API_KEY)" and rid' = "''a''" and S' = "[[(''__id'', JStr ''a'')]]"]
  show ?thesis
    using t by (simp add: s1 s2 p1 p2)
qed




text \<open>
  C2 (as amended). Start from the empty store and serve any sequence of ingest, patch
  and rebuild-identifiers requests in which no patch names the field \<open>__id\<close>. Then
  every stored row has a non-empty string \<open>__id\<close>, which is also the identifier the
  resolver probes; and if every ingest of the sequence gives its rows pairwise
  distinct identifiers (the probed identifier, or \<open>row-<index>\<close> where there is
  none), the \<open>__id\<close> values of the store are pairwise distinct.
\<close>

theorem store_invariant:
  assumes "\<forall>q\<in>set reqs. \<not> patches_id_field q"
  shows "(\<forall>row\<in>set (serve_all E reqs). \<exists>s. dict_get row ''__id'' = JStr s \<and> s \<noteq> [] \<and> row_id row = s) \<and>
         ((\<forall>q\<in>set reqs. distinct (ingest_ids q)) \<longrightarrow>
            distinct (map (\<lambda>row. dict_get row ''__id'') (serve_all E reqs)))"
proof -
  note inv = serve_all_invariant [OF assms, of E]
  from inv have "\<forall>row\<in>set (serve_all E reqs). has_id row"
    by (simp add: list_all_iff)
  then have "\<forall>row\<in>set (serve_all E reqs). \<exists>s. dict_get row ''__id'' = JStr s \<and> s \<noteq> [] \<and> row_id row = s"
    using row_id_of_has_id by blast
  with inv show ?thesis by blast
qed

theorem store_invariant_witness:
  "list_all (\<lambda>q. \<not> patches_id_field q)
     [Ingest (Some ''Bearer my_secret_key'')
        (JArr [JObj [(''ID'', JInt 7)], JObj [(''Status'', JStr ''open'')]]),
      Patch ''row-1'' (Some ''Bearer my_secret_key'')
        (JObj [(''field'', JStr ''Status''), (''value'', JStr ''done'')]),
      RebuildIds (Some ''Bearer my_secret_key'')] \<and>
   list_all (\<lambda>q. distinct (ingest_ids q))
     [Ingest (Some ''Bearer my_secret_key'')
        (JArr [JObj [(''ID'', JInt 7)], JObj [(''Status'', JStr ''open'')]]),
      Patch ''row-1'' (Some ''Bearer my_secret_key'')
        (JObj [(''field'', JStr ''Status''), (''value'', JStr ''done'')]),
      RebuildIds (Some ''Bearer my_secret_key'')] \<and>
   serve_all None
     [Ingest (Some ''Bearer my_secret_key'')
        (JArr [JObj [(''ID'', JInt 7)], JObj [(''Status'', JStr ''open'')]]),
      Patch ''row-1'' (Some ''Bearer my_secret_key'')
        (JObj [(''field'', JStr ''Status''), (''value'', JStr ''done'')]),
      RebuildIds (Some ''Bearer my_secret_key'')]
     = [[(''ID'', JInt 7), (''__id'', JStr ''7'')],
        [(''Status'', JStr ''done''), (''__id'', JStr ''row-1'')]] \<and>
   list_all (\<lambda>row. \<exists>s. dict_get row ''__id'' = JStr s \<and> s \<noteq> [] \<and> row_id row = s)
     (serve_all None
       [Ingest (Some ''Bearer my_secret_key'')
          (JArr [JObj [(''ID'', JInt 7)], JObj [(''Status'', JStr ''open'')]]),
        Patch ''row-1'' (Some ''Bearer my_secret_key'')
          (JObj [(''field'', JStr ''Status''), (''value'', JStr ''done'')]),
        RebuildIds (Some ''Bearer my_secret_key'')]) \<and>
   distinct (map (\<lambda>row. dict_get row ''__id'')
     (serve_all None
       [Ingest (Some ''Bearer my_secret_key'')
          (JArr [JObj [(''ID'', JInt 7)], JObj [(''Status'', JStr ''open'')]]),
        Patch ''row-1'' (Some ''Bearer my_secret_key'')
          (JObj [(''field'', JStr ''Status''), (''value'', JStr ''done'')]),
        RebuildIds (Some ''Bearer my_secret_key'')]))"
proof -
  let ?reqs = "[Ingest (Some ''Bearer my_secret_key'')
        (JArr [JObj [(''ID'', JInt 7)], JObj [(''Status'', JStr ''open'')]]),
      Patch ''row-1'' (Some ''Bearer my_secret_key'')
        (JObj [(''field'', JStr ''Status''), (''value'', JStr ''done'')]),
      RebuildIds (Some ''Bearer my_secret_key'')]"
  have h1: "list_all (\<lambda>q. \<not> patches_id_field q) ?reqs" by code_simp
  have h2: "list_all (\<lambda>q. distinct (ingest_ids q)) ?reqs" by code_simp
  have e: "serve_all None ?reqs
     = [[(''ID'', JInt 7), (''__id'', JStr ''7'')],
        [(''Status'', JStr ''done''), (''__id'', JStr ''row-1'')]]"
    by code_simp
  from h1 have h1': "\<forall>q\<in>set ?reqs. \<not> patches_id_field q"
    by (simp only: list_all_iff)
  from h2 have h2': "\<forall>q\<in>set ?reqs. distinct (ingest_ids q)"
    by (simp only: list_all_iff)
  from store_invariant [OF h1', of None] h2'
  have "(\<forall>row\<in>set (serve_all None ?reqs).
           \<exists>s. dict_get row ''__id'' = JStr s \<and> s \<noteq> [] \<and> row_id row = s)"
    and c2: "distinct (map (\<lambda>row. dict_get row ''__id'') (serve_all None ?reqs))"
    by blast+
  then have c1: "list_all (\<lambda>row. \<exists>s. dict_get row ''__id'' = JStr s \<and> s \<noteq> [] \<and> row_id row = s)
     (serve_all None ?reqs)"
    by (simp only: list_all_iff)
  from h1 h2 e c1 c2 show ?thesis by (intro conjI)
qed

text \<open>
  C2 as stated fails. The store takes the identifiers of a payload as they come: a row
  named \<open>row-1\<close> followed by a row with no identifier, which receives the positional
  \<open>row-1\<close>, leaves two rows with one \<open>__id\<close>. And a patch of the field \<open>__id\<close>
  can empty it.
\<close>

theorem store_ids_collide_counterexample:
  "serve_all None
     [Ingest (Some ''Bearer my_secret_key'') (JArr [JObj [(''__id'', JStr ''row-1'')], JObj []])]
     = [[(''__id'', JStr ''row-1'')], [(''__id'', JStr ''row-1'')]] \<and>
   serve_all None
     [Ingest (Some ''Bearer my_secret_key'') (JArr [JObj []]),
      Patch ''row-0'' (Some ''Bearer my_secret_key'') (JObj [(''field'', JStr ''__id''), (''value'', JStr [])])]
     = [[(''__id'', JStr [])]]"
  by code_simp

section \<open>Properties of the identity assigner\<close>

text \<open>
  C1. Uniqueness enforcement. The claim asks for pairwise distinct \<open>__id\<close> values
  after the de-duplication step on every table. A sheet whose \<open>ID\<close> column holds
  \<open>a\<close>, \<open>a\<close> and \<open>a-0\<close> is sent with the identifiers \<open>a-0\<close>, \<open>a-1\<close> and
  \<open>a-0\<close>: the suffixed first member of the group meets the third row, which was
  unique before and is left alone.
\<close>

theorem duplicate_suffix_collides:
  "send_excel_to_api [(''ID'', [Str ''a'', Str ''a'', Str ''a-0''])]
     = Inr [JObj [(''ID'', JStr ''a''), (''__id'', JStr ''a-0'')],
            JObj [(''ID'', JStr ''a''), (''__id'', JStr ''a-1'')],
            JObj [(''ID'', JStr ''a-0''), (''__id'', JStr ''a-0'')]]"
  by code_simp




text \<open>
  C8. Column reconciliation, on a table with distinct column names. A name is matched
  by its trimmed lower-case form, the last such column winning. With both a
  \<open>Category\<close> and a \<open>Scope\<close> column the table keeps its columns, their names and
  their order, and only the \<open>Category\<close> cells change: a missing or empty one takes
  the \<open>Scope\<close> cell of its row, any other stays. With \<open>Scope\<close> alone, a column
  \<open>Category\<close> holding the \<open>Scope\<close> cells is put right after it and nothing else
  moves. With no \<open>Scope\<close> column the table is returned as it is.
\<close>

theorem prepare_category_reconciles:
  assumes "distinct (columns df)"
  shows
    "(lower_to_orig (columns df) ''category'' = Some c \<and> lower_to_orig (columns df) ''scope'' = Some s \<longrightarrow>
        (\<exists>category scope. map_of df c = Some category \<and> map_of df s = Some scope \<and>
           prepare_category df =
             Inr (map (\<lambda>(n, vals).
                    if n = c
                    then (n, map (\<lambda>(cv, sv). if cv = NaN \<or> cv = Str [] then sv else cv) (zip category scope))
                    else (n, vals)) df))) \<and>
     (lower_to_orig (columns df) ''category'' = None \<and> lower_to_orig (columns df) ''scope'' = Some s \<longrightarrow>
        (\<exists>i scope. i < length df \<and> df ! i = (s, scope) \<and>
           prepare_category df = Inr (take (Suc i) df @ [(''Category'', scope)] @ drop (Suc i) df))) \<and>
     (lower_to_orig (columns df) ''scope'' = None \<longrightarrow> prepare_category df = Inr df) \<and>
     (lower_to_orig (columns df) k = None \<longleftrightarrow> (\<forall>n\<in>set (columns df). lower (strip n) \<noteq> k)) \<and>
     (lower_to_orig (columns df) k = Some n \<longrightarrow> n \<in> set (columns df) \<and> lower (strip n) = k)"
proof (intro conjI impI)
  assume h: "lower_to_orig (columns df) ''category'' = Some c \<and> lower_to_orig (columns df) ''scope'' = Some s"
  then have hc: "lower_to_orig (columns df) ''category'' = Some c"
    and hs: "lower_to_orig (columns df) ''scope'' = Some s" by blast+
  have gc: "name_given (lower_to_orig (columns df) ''category'')"
    using hc by (rule lower_to_orig_given) simp
  have gs: "name_given (lower_to_orig (columns df) ''scope'')"
    using hs by (rule lower_to_orig_given) simp
  have c_in: "c \<in> set (columns df)" using lower_to_orig_Some [OF hc] by simp
  have s_in: "s \<in> set (columns df)" using lower_to_orig_Some [OF hs] by simp
  from map_of_column [OF c_in] obtain category where mc: "map_of df c = Some category" by blast
  from map_of_column [OF s_in] obtain scope where ms: "map_of df s = Some scope" by blast
  have "prepare_category df = Inr (dict_set df c (series_where category scope))"
    using gc gs by (simp add: prepare_category_def Let_def hc hs mc ms)
  also have "dict_set df c (series_where category scope) =
      map (\<lambda>(n, vals). if n = c then (n, series_where category scope) else (n, vals)) df"
    using assms c_in by (intro dict_set_present) (simp_all add: columns_def)
  finally have "prepare_category df =
      Inr (map (\<lambda>(n, vals).
             if n = c
             then (n, map (\<lambda>(cv, sv). if cv = NaN \<or> cv = Str [] then sv else cv) (zip category scope))
             else (n, vals)) df)"
    by (simp only: series_where_rows)
  with mc ms show "\<exists>category scope. map_of df c = Some category \<and> map_of df s = Some scope \<and>
           prepare_category df =
             Inr (map (\<lambda>(n, vals).
                    if n = c
                    then (n, map (\<lambda>(cv, sv). if cv = NaN \<or> cv = Str [] then sv else cv) (zip category scope))
                    else (n, vals)) df)"
    by blast
next
  assume h: "lower_to_orig (columns df) ''category'' = None \<and> lower_to_orig (columns df) ''scope'' = Some s"
  then have hc: "lower_to_orig (columns df) ''category'' = None"
    and hs: "lower_to_orig (columns df) ''scope'' = Some s" by blast+
  have gs: "name_given (lower_to_orig (columns df) ''scope'')"
    using hs by (rule lower_to_orig_given) simp
  have s_in: "s \<in> set (columns df)" using lower_to_orig_Some [OF hs] by simp
  from first_index_exists [OF s_in] obtain i where fi: "first_index (\<lambda>c. c = s) (columns df) = Some i"
    by blast
  have i_len: "i < length df" using first_index_less [OF fi] by (simp add: columns_def)
  have "columns df ! i = s" using first_index_holds [OF fi] .
  then have fst_i: "fst (df ! i) = s" using i_len by (simp add: columns_def)
  have "df ! i \<in> set df" using i_len by simp
  then have "(s, snd (df ! i)) \<in> set df" using fst_i by (metis prod.collapse)
  then have ms: "map_of df s = Some (snd (df ! i))"
    using assms by (simp add: columns_def)
  have row_i: "df ! i = (s, snd (df ! i))" using fst_i by (metis prod.collapse)
  have "\<forall>n\<in>set (columns df). lower (strip n) \<noteq> ''category''"
    using hc by (simp only: lower_to_orig_None)
  then have fresh: "''Category'' \<notin> set (columns df)"
    using category_key by blast
  have "prepare_category df = df_insert (i + 1) ''Category'' (snd (df ! i)) df"
    using gs by (simp add: prepare_category_def Let_def hc hs ms fi name_given_def)
  then have "prepare_category df = Inr (take (Suc i) df @ [(''Category'', snd (df ! i))] @ drop (Suc i) df)"
    using fresh by (simp add: df_insert_def)
  with i_len row_i show "\<exists>i scope. i < length df \<and> df ! i = (s, scope) \<and>
           prepare_category df = Inr (take (Suc i) df @ [(''Category'', scope)] @ drop (Suc i) df)"
    by blast
next
  assume "lower_to_orig (columns df) ''scope'' = None"
  then show "prepare_category df = Inr df"
    by (simp add: prepare_category_def Let_def name_given_def)
next
  show "lower_to_orig (columns df) k = None \<longleftrightarrow> (\<forall>n\<in>set (columns df). lower (strip n) \<noteq> k)"
    by (rule lower_to_orig_None)
next
  assume "lower_to_orig (columns df) k = Some n"
  then show "n \<in> set (columns df)" using lower_to_orig_Some by blast
next
  assume "lower_to_orig (columns df) k = Some n"
  then show "lower (strip n) = k" using lower_to_orig_Some by blast
qed

theorem prepare_category_reconciles_witness:
  "distinct (columns [(''Category'', [Str [], Str ''X'', NaN]), (''SCOPE '', [Str ''A'', Str ''B'', Str ''C''])]) \<and>
   lower_to_orig (columns [(''Category'', [Str [], Str ''X'', NaN]), (''SCOPE '', [Str ''A'', Str ''B'', Str ''C''])])
     ''category'' = Some ''Category'' \<and>
   lower_to_orig (columns [(''Category'', [Str [], Str ''X'', NaN]), (''SCOPE '', [Str ''A'', Str ''B'', Str ''C''])])
     ''scope'' = Some ''SCOPE '' \<and>
   prepare_category [(''Category'', [Str [], Str ''X'', NaN]), (''SCOPE '', [Str ''A'', Str ''B'', Str ''C''])]
     = Inr [(''Category'', [Str ''A'', Str ''X'', Str ''C'']), (''SCOPE '', [Str ''A'', Str ''B'', Str ''C''])] \<and>
   distinct (columns [(''Scope'', [Str ''A'', Str ''B'']), (''Status'', [Str ''open'', NaN])]) \<and>
   lower_to_orig (columns [(''Scope'', [Str ''A'', Str ''B'']), (''Status'', [Str ''open'', NaN])])
     ''category'' = None \<and>
   lower_to_orig (columns [(''Scope'', [Str ''A'', Str ''B'']), (''Status'', [Str ''open'', NaN])])
     ''scope'' = Some ''Scope'' \<and>
   prepare_category [(''Scope'', [Str ''A'', Str ''B'']), (''Status'', [Str ''open'', NaN])]
     = Inr [(''Scope'', [Str ''A'', Str ''B'']), (''Category'', [Str ''A'', Str ''B'']),
            (''Status'', [Str ''open'', NaN])] \<and>
   distinct (columns [(''Category'', [Str ''X'']), (''Status'', [Str ''open''])]) \<and>
   lower_to_orig (columns [(''Category'', [Str ''X'']), (''Status'', [Str ''open''])]) ''scope'' = None \<and>
   prepare_category [(''Category'', [Str ''X'']), (''Status'', [Str ''open''])]
     = Inr [(''Category'', [Str ''X'']), (''Status'', [Str ''open''])]"
proof -
  let ?A = "[(''Category'', [Str [], Str ''X'', NaN]), (''SCOPE '', [Str ''A'', Str ''B'', Str ''C''])]"
  let ?B = "[(''Scope'', [Str ''A'', Str ''B'']), (''Status'', [Str ''open'', NaN])]"
  let ?C = "[(''Category'', [Str ''X'']), (''Status'', [Str ''open''])]"
  have a0: "distinct (columns ?A)" by (simp add: columns_def)
  have a1: "lower_to_orig (columns ?A) ''category'' = Some ''Category''" by code_simp
  have a2: "lower_to_orig (columns ?A) ''scope'' = Some ''SCOPE ''" by code_simp
  from prepare_category_reconciles [OF a0, of "''Category''" "''SCOPE ''"] a1 a2
  obtain category scope where "map_of ?A ''Category'' = Some category"
    and "map_of ?A ''SCOPE '' = Some scope"
    and r: "prepare_category ?A =
             Inr (map (\<lambda>(n, vals).
                    if n = ''Category''
                    then (n, map (\<lambda>(cv, sv). if cv = NaN \<or> cv = Str [] then sv else cv) (zip category scope))
                    else (n, vals)) ?A)"
    by blast
  then have "category = [Str [], Str ''X'', NaN]" and "scope = [Str ''A'', Str ''B'', Str ''C'']"
    by simp_all
  with r have a3: "prepare_category ?A
     = Inr [(''Category'', [Str ''A'', Str ''X'', Str ''C'']), (''SCOPE '', [Str ''A'', Str ''B'', Str ''C''])]"
    by simp
  have b0: "distinct (columns ?B)" by (simp add: columns_def)
  have b1: "lower_to_orig (columns ?B) ''category'' = None" by code_simp
  have b2: "lower_to_orig (columns ?B) ''scope'' = Some ''Scope''" by code_simp
  from prepare_category_reconciles [OF b0, of _ "''Scope''"] b1 b2
  obtain i scope where i: "i < length ?B" and row: "?B ! i = (''Scope'', scope)"
    and r: "prepare_category ?B = Inr (take (Suc i) ?B @ [(''Category'', scope)] @ drop (Suc i) ?B)"
    by blast
  from i have "i = 0 \<or> i = 1" by auto
  with row have "i = 0" and "scope = [Str ''A'', Str ''B'']" by auto
  with r have b3: "prepare_category ?B
     = Inr [(''Scope'', [Str ''A'', Str ''B'']), (''Category'', [Str ''A'', Str ''B'']),
            (''Status'', [Str ''open'', NaN])]"
    by simp
  have c0: "distinct (columns ?C)" by (simp add: columns_def)
  have c1: "lower_to_orig (columns ?C) ''scope'' = None" by code_simp
  from prepare_category_reconciles [OF c0] c1
  have c2: "prepare_category ?C = Inr ?C" by blast
  from a0 a1 a2 a3 b0 b1 b2 b3 c0 c1 c2 show ?thesis by (intro conjI)
qed



end
